theory Spec2Isabelle
  imports Complex_Main "HOL-Library.Word"
begin

section \<open>Data model of \<^verbatim>\<open>pi_server_enhanced.py\<close>\<close>

text \<open>
  Python \<^verbatim>\<open>bytes\<close> are lists of 8-bit words; Python \<^verbatim>\<open>str\<close> values are
  \<^typ>\<open>string\<close>. \<^verbatim>\<open>time.time()\<close> is a float, idealised here as a real number; no
  property below depends on rounding.
\<close>

type_synonym byte = "8 word"
type_synonym bytes = "byte list"
type_synonym addr = "string \<times> nat"

datatype py_error = StructError | UnicodeDecodeError | IsADirectoryError | IndexError

text \<open>The module constants.\<close>

definition VIDEO_PORT :: nat where "VIDEO_PORT = 5001"
definition COMMAND_PORT :: nat where "COMMAND_PORT = 5002"
definition STATUS_PORT :: nat where "STATUS_PORT = 5003"
definition RECORDING_DIR :: string where "RECORDING_DIR = ''/home/pi/recordings''"
definition MAX_RECORDING_SIZE_MB :: real where "MAX_RECORDING_SIZE_MB = 500"

text \<open>
  \<^verbatim>\<open>os.path.join(a, b)\<close> of \<^verbatim>\<open>posixpath\<close>, for two arguments: an absolute second
  component replaces the first, otherwise the two are joined with one separator.
\<close>

definition path_join :: "string \<Rightarrow> string \<Rightarrow> string" where
  "path_join a b =
     (if b \<noteq> [] \<and> hd b = CHR ''/'' then b
      else if a = [] \<or> last a = CHR ''/'' then a @ b
      else a @ ''/'' @ b)"

text \<open>
  A \<^verbatim>\<open>cv2.VideoWriter\<close> object: the path it was constructed on, what
  \<^verbatim>\<open>isOpened()\<close> answers, the bytes it has accepted from \<^verbatim>\<open>write\<close> but still holds
  in its buffer, and the index it keeps to append at \<^verbatim>\<open>release()\<close>. The \<^verbatim>\<open>fps\<close> and
  frame size arguments only reach the container header and are not kept.
\<close>

record VideoWriter =
  vw_path :: string
  vw_opened :: bool
  vw_pending :: bytes
  vw_index :: bytes

text \<open>
  The file system: a path holds a regular file, a directory, or nothing. A regular file
  has its content and the size that \<^verbatim>\<open>stat\<close> reports for it; the two are read by
  separate calls and need not agree (a file under \<^verbatim>\<open>/proc\<close>, for one). A directory has
  the size reported for it.
\<close>

datatype node = File bytes nat | Dir nat

type_synonym filesystem = "string \<Rightarrow> node option"

definition path_exists :: "filesystem \<Rightarrow> string \<Rightarrow> bool" where
  "path_exists fs p = (fs p \<noteq> None)"

definition getsize :: "filesystem \<Rightarrow> string \<Rightarrow> nat" where
  "getsize fs p = (case fs p of Some (File c n) \<Rightarrow> n | Some (Dir n) \<Rightarrow> n | None \<Rightarrow> 0)"

text \<open>The fields of class \<^verbatim>\<open>StreamState\<close> (the lock is the atomicity of each function below).\<close>

record StreamState =
  streaming :: bool
  recording :: bool
  pc_ip :: "string option"
  fps :: int
  quality :: int
  resolution :: "int \<times> int"
  frames_sent :: int
  frames_recorded :: int
  recording_file :: "string option"
  recording_start_time :: "real option"
  video_writer :: "VideoWriter option"
  session_start :: real

text \<open>\<^verbatim>\<open>StreamState.__init__\<close>, at the time \<open>t\<close> read from the clock.\<close>

definition init_state :: "real \<Rightarrow> StreamState" where
  "init_state t =
     \<lparr>streaming = False, recording = False, pc_ip = None, fps = 15, quality = 40,
      resolution = (640, 480), frames_sent = 0, frames_recorded = 0,
      recording_file = None, recording_start_time = None, video_writer = None,
      session_start = t\<rparr>"

text \<open>
  The process as the three threads see it: the global \<^verbatim>\<open>state\<close>, the files on disk
  and \<^verbatim>\<open>running_flag[0]\<close>.
\<close>

record world =
  state :: StreamState
  files :: filesystem
  running :: bool

section \<open>Decimal rendering and truncation, as f-strings and \<^verbatim>\<open>int()\<close> do them\<close>

fun str_of_nat :: "nat \<Rightarrow> string" where
  "str_of_nat n =
     (if n < 10 then [char_of (48 + n)]
      else str_of_nat (n div 10) @ [char_of (48 + n mod 10)])"

definition str_of_int :: "int \<Rightarrow> string" where
  "str_of_int i = (if i < 0 then ''-'' @ str_of_nat (nat (- i)) else str_of_nat (nat i))"

text \<open>\<^verbatim>\<open>int(x)\<close> on a float truncates towards zero.\<close>

definition py_int :: "real \<Rightarrow> int" where
  "py_int x = (if 0 \<le> x then \<lfloor>x\<rfloor> else \<lceil>x\<rceil>)"

section \<open>Recording operations of \<^verbatim>\<open>StreamState\<close>\<close>

text \<open>
  What one call of \<^verbatim>\<open>start_recording\<close> reads from outside the program:
  \<^verbatim>\<open>datetime.now().strftime("%Y%m%d_%H%M%S")\<close>, \<^verbatim>\<open>time.time()\<close>, and what constructing
  the \<^verbatim>\<open>cv2.VideoWriter\<close> on a path does to a disk: whether the writer is opened
  afterwards, and the disk it leaves. Nothing is assumed about that disk: the constructor
  may create or truncate the file even when the writer does not open.
\<close>

record rec_env =
  strftime_now :: string
  time_now :: real
  writer_open :: "string \<Rightarrow> filesystem \<Rightarrow> bool \<times> filesystem"

text \<open>The name the recording gets: the caller's, or one made from the clock.\<close>

definition recording_name :: "rec_env \<Rightarrow> string option \<Rightarrow> string" where
  "recording_name e filename =
     (case filename of
        None \<Rightarrow> ''recording_'' @ strftime_now e @ ''.avi''
      | Some f \<Rightarrow> f)"

definition start_recording ::
  "rec_env \<Rightarrow> string option \<Rightarrow> world \<Rightarrow> world \<times> (bool \<times> string)" where
  "start_recording e filename w =
     (let s = state w in
      if recording s then (w, (False, ''Already recording''))
      else
        let filename' = recording_name e filename;
            filepath = path_join RECORDING_DIR filename';
            (opened, fs') = writer_open e filepath (files w);
            vw = \<lparr>vw_path = filepath, vw_opened = opened, vw_pending = [], vw_index = []\<rparr>;
            s1 = s\<lparr>video_writer := Some vw\<rparr>
        in if \<not> vw_opened vw
           then (w\<lparr>state := s1, files := fs'\<rparr>, (False, ''Failed to create video writer''))
           else (w\<lparr>state := s1\<lparr>recording := True, recording_file := Some filename',
                                 recording_start_time := Some (time_now e),
                                 frames_recorded := 0\<rparr>,
                   files := fs'\<rparr>,
                 (True, ''Recording started: '' @ filename')))"

text \<open>
  Bytes reaching a file: they extend a regular file at the path and its reported size;
  a path that no longer names a regular file is left as it is.
\<close>

definition append_file :: "filesystem \<Rightarrow> string \<Rightarrow> bytes \<Rightarrow> filesystem" where
  "append_file fs p b =
     (case fs p of
        Some (File c n) \<Rightarrow> fs(p \<mapsto> File (c @ b) (n + length b))
      | Some (Dir n) \<Rightarrow> fs
      | None \<Rightarrow> fs)"

text \<open>
  \<^verbatim>\<open>release()\<close>: an opened writer puts what it still holds in its buffer, and then its
  index, into the file.
\<close>

definition release :: "VideoWriter \<Rightarrow> filesystem \<Rightarrow> filesystem" where
  "release vw fs =
     (if vw_opened vw then append_file fs (vw_path vw) (vw_pending vw @ vw_index vw) else fs)"

text \<open>
  \<^verbatim>\<open>stop_recording\<close>, at clock reading \<open>now\<close>. A float is falsy when it is \<open>0.0\<close>,
  so a start time of zero counts as absent in the duration.
\<close>

definition stop_recording :: "real \<Rightarrow> world \<Rightarrow> world \<times> (bool \<times> string)" where
  "stop_recording now w =
     (let s = state w in
      if \<not> recording s then (w, (False, ''Not recording''))
      else
        let s1 = (case video_writer s of None \<Rightarrow> s | Some vw \<Rightarrow> s\<lparr>video_writer := None\<rparr>);
            fs' = (case video_writer s of None \<Rightarrow> files w | Some vw \<Rightarrow> release vw (files w));
            filename = recording_file s1;
            duration = (case recording_start_time s1 of
                          None \<Rightarrow> 0
                        | Some t0 \<Rightarrow> if t0 \<noteq> 0 then now - t0 else 0);
            s2 = s1\<lparr>recording := False, recording_file := None, recording_start_time := None\<rparr>
        in (w\<lparr>state := s2, files := fs'\<rparr>,
            (True, ''Recording stopped: '' @ (case filename of None \<Rightarrow> ''None'' | Some f \<Rightarrow> f)
                   @ '' ('' @ str_of_int (py_int duration) @ ''s, ''
                   @ str_of_int (frames_recorded s2) @ '' frames)'')))"

text \<open>
  What \<^verbatim>\<open>VideoWriter.write\<close> does with one frame: the bytes of the frame as the MJPG
  container lays it out, how many bytes of the buffer (with this frame at its end) the
  writer puts into the file during the call, and the entry it adds to its index. A writer
  that buffers nothing flushes all of them; one that buffers may flush none.
\<close>

record frame_write =
  fw_bytes :: bytes
  fw_flush :: nat
  fw_index :: bytes

text \<open>\<^verbatim>\<open>write_frame\<close>; a writer that is not opened ignores the frame.\<close>

definition write_frame :: "frame_write \<Rightarrow> world \<Rightarrow> world \<times> bool" where
  "write_frame enc w =
     (let s = state w in
      case video_writer s of
        Some vw \<Rightarrow>
          if recording s
          then
            if vw_opened vw
            then
              let buffer = vw_pending vw @ fw_bytes enc;
                  vw' = vw\<lparr>vw_pending := drop (fw_flush enc) buffer,
                          vw_index := vw_index vw @ fw_index enc\<rparr>
              in (w\<lparr>state := s\<lparr>video_writer := Some vw',
                                 frames_recorded := frames_recorded s + 1\<rparr>,
                     files := append_file (files w) (vw_path vw) (take (fw_flush enc) buffer)\<rparr>,
                  True)
            else (w\<lparr>state := s\<lparr>frames_recorded := frames_recorded s + 1\<rparr>\<rparr>, True)
          else (w, False)
      | None \<Rightarrow> (w, False))"

section \<open>The command listener\<close>

text \<open>
  The text functions of the Python library that the servers call on received data:
  \<^verbatim>\<open>bytes.decode('utf-8')\<close> (\<open>None\<close> when it raises), \<^verbatim>\<open>str.strip()\<close> and
  \<^verbatim>\<open>str.upper()\<close>. They are parameters, so that every result below holds for the
  library's full Unicode behaviour.
\<close>

record pylib =
  utf8_decode :: "bytes \<Rightarrow> string option"
  str_strip :: "string \<Rightarrow> string"
  str_upper :: "string \<Rightarrow> string"

text \<open>\<^verbatim>\<open>str.encode()\<close> of a reply.\<close>

definition encode :: "string \<Rightarrow> bytes" where
  "encode s = map of_char s"

text \<open>
  The \<^verbatim>\<open>if/elif\<close> chain of \<^verbatim>\<open>listen_for_commands\<close> on the normalised command, with
  the reply it leaves in \<^verbatim>\<open>response\<close>.
\<close>

definition process_command :: "rec_env \<Rightarrow> string \<Rightarrow> addr \<Rightarrow> world \<Rightarrow> world \<times> string" where
  "process_command e command sender w =
     (if command = ''START''
      then (w\<lparr>state := (state w)\<lparr>streaming := True, pc_ip := Some (fst sender)\<rparr>\<rparr>,
            ''STREAMING_STARTED'')
      else if command = ''STOP''
      then (w\<lparr>state := (state w)\<lparr>streaming := False\<rparr>\<rparr>, ''STREAMING_STOPPED'')
      else if command = ''RECORD_START''
      then (let (w', success, msg) = start_recording e None w in (w', msg))
      else if command = ''RECORD_STOP''
      then (let (w', success, msg) = stop_recording (time_now e) w in (w', msg))
      else if command = ''PING''
      then (w, ''PONG'')
      else if command = ''SHUTDOWN''
      then (w\<lparr>running := False\<rparr>, ''SHUTTING_DOWN'')
      else (w, ''OK''))"

text \<open>
  One pass of the \<^verbatim>\<open>while\<close> body: \<^verbatim>\<open>recvfrom\<close> either times out or delivers a
  datagram with its sender. The result is the new world and the datagrams handed to
  \<^verbatim>\<open>sendto\<close>. A datagram that does not decode raises inside the \<^verbatim>\<open>try\<close>; the
  handler logs it and nothing is sent.
\<close>

datatype recv = Timeout | Datagram bytes addr

definition listen_step ::
  "pylib \<Rightarrow> rec_env \<Rightarrow> recv \<Rightarrow> world \<Rightarrow> world \<times> (bytes \<times> addr) list" where
  "listen_step lib e r w =
     (case r of
        Timeout \<Rightarrow> (w, [])
      | Datagram data sender \<Rightarrow>
          (case utf8_decode lib data of
             None \<Rightarrow> (w, [])
           | Some text \<Rightarrow>
               let command = str_upper lib (str_strip lib text);
                   (w', response) = process_command e command sender w
               in (w', [(encode response, sender)])))"

text \<open>
  \<^verbatim>\<open>listen_for_commands\<close> after a successful bind: the loop runs while the flag is set,
  over the receive events in the order they arrive.
\<close>

fun listen_for_commands ::
  "pylib \<Rightarrow> (rec_env \<times> recv) list \<Rightarrow> world \<Rightarrow> world \<times> (bytes \<times> addr) list" where
  "listen_for_commands lib [] w = (w, [])"
| "listen_for_commands lib ((e, r) # rs) w =
     (if \<not> running w then (w, [])
      else let (w1, out1) = listen_step lib e r w;
               (w2, out2) = listen_for_commands lib rs w1
           in (w2, out1 @ out2))"

text \<open>
  The library functions on plain ASCII text, for concrete runs; \<^verbatim>\<open>strip\<close> removes the
  ASCII characters for which \<^verbatim>\<open>str.isspace\<close> holds.
\<close>

definition ascii_space :: "char \<Rightarrow> bool" where
  "ascii_space c =
     (c \<in> set [CHR '' '', CHR 0x09, CHR 0x0A, CHR 0x0B, CHR 0x0C, CHR 0x0D,
                CHR 0x1C, CHR 0x1D, CHR 0x1E, CHR 0x1F])"

definition ascii_strip :: "string \<Rightarrow> string" where
  "ascii_strip s = rev (dropWhile ascii_space (rev (dropWhile ascii_space s)))"

definition ascii_upper_char :: "char \<Rightarrow> char" where
  "ascii_upper_char c =
     (if 97 \<le> (of_char c :: nat) \<and> (of_char c :: nat) \<le> 122
      then char_of ((of_char c :: nat) - 32) else c)"

definition ascii_decode :: "bytes \<Rightarrow> string option" where
  "ascii_decode b = (if list_all (\<lambda>x. x < 128) b then Some (map (\<lambda>x. char_of (unat x)) b) else None)"

definition ascii_lib :: pylib where
  "ascii_lib = \<lparr>utf8_decode = ascii_decode, str_strip = ascii_strip,
                str_upper = map ascii_upper_char\<rparr>"

section \<open>The packet header\<close>

text \<open>
  \<^verbatim>\<open>struct.Struct("!I Q")\<close>: network byte order, standard sizes, no padding, so a
  4-byte unsigned integer followed by an 8-byte unsigned integer, most significant byte
  first. \<^verbatim>\<open>pack\<close> raises \<^verbatim>\<open>struct.error\<close> when an argument does not fit its field.
\<close>

fun be_bytes :: "nat \<Rightarrow> int \<Rightarrow> bytes" where
  "be_bytes 0 x = []"
| "be_bytes (Suc n) x = be_bytes n (x div 256) @ [word_of_int x]"

definition be_int :: "bytes \<Rightarrow> int" where
  "be_int b = foldl (\<lambda>acc x. acc * 256 + uint x) 0 b"

definition header_pack :: "int \<Rightarrow> int \<Rightarrow> py_error + bytes" where
  "header_pack sq ts =
     (if 0 \<le> sq \<and> sq < 2 ^ 32 \<and> 0 \<le> ts \<and> ts < 2 ^ 64
      then Inr (be_bytes 4 sq @ be_bytes 8 ts)
      else Inl StructError)"

text \<open>\<^verbatim>\<open>unpack\<close> of the same format, as the receiving side applies it to the first 12 bytes.\<close>

definition header_unpack :: "bytes \<Rightarrow> py_error + int \<times> int" where
  "header_unpack b =
     (if length b = 12 then Inr (be_int (take 4 b), be_int (drop 4 b)) else Inl StructError)"

section \<open>The streaming loop\<close>

text \<open>
  A frame is an array with a shape; the image functions of OpenCV are parameters:
  \<^verbatim>\<open>cv2.resize\<close> with nearest-neighbour interpolation, \<^verbatim>\<open>cv2.imencode(".jpg", ...)\<close>
  at a quality, and the bytes and the index entry the MJPG \<^verbatim>\<open>VideoWriter\<close> makes of
  a frame. They are taken not to raise.
\<close>

record frame =
  f_height :: int
  f_width :: int
  f_pixels :: bytes

record codec =
  cv_resize :: "frame \<Rightarrow> int \<times> int \<Rightarrow> frame"
  imencode_jpg :: "frame \<Rightarrow> int \<Rightarrow> bytes"
  mjpg_encode :: "frame \<Rightarrow> bytes"
  mjpg_index :: "frame \<Rightarrow> bytes"

text \<open>
  What one pass of the loop body reads from outside: the camera (\<open>None\<close> when
  \<^verbatim>\<open>read()\<close> fails), how many buffered bytes the video writer puts into the file while
  it takes the frame, \<^verbatim>\<open>time.time_ns()\<close>, whether \<^verbatim>\<open>sendto\<close> returns or raises, and
  \<^verbatim>\<open>time.time()\<close>.
\<close>

record iter_env =
  camera_read :: "frame option"
  write_flush :: nat
  time_ns :: int
  sendto_ok :: bool
  clock :: real

text \<open>
  The locals of \<^verbatim>\<open>stream_video\<close> beside the world: \<^verbatim>\<open>seq\<close>, the quality captured in
  \<^verbatim>\<open>encode_params\<close> before the loop, and the datagrams handed to the socket so far.
\<close>

record pstate =
  pw :: world
  seq :: int
  encode_quality :: int
  sent :: "(bytes \<times> addr) list"

text \<open>
  The send: only with a non-empty \<^verbatim>\<open>pc_ip\<close>; an exception of \<^verbatim>\<open>sendto\<close> is swallowed
  and then neither counter moves.
\<close>

definition send_packet :: "iter_env \<Rightarrow> bytes \<Rightarrow> pstate \<Rightarrow> pstate" where
  "send_packet e packet p =
     (case pc_ip (state (pw p)) of
        Some ip \<Rightarrow>
          if ip \<noteq> [] \<and> sendto_ok e
          then p\<lparr>pw := (pw p)\<lparr>state :=
                       (state (pw p))\<lparr>frames_sent := frames_sent (state (pw p)) + 1\<rparr>\<rparr>,
                 seq := seq p + 1,
                 sent := sent p @ [(packet, (ip, VIDEO_PORT))]\<rparr>
          else p
      | None \<Rightarrow> p)"

text \<open>The size check at the end of a pass.\<close>

definition check_recording_size :: "real \<Rightarrow> world \<Rightarrow> world" where
  "check_recording_size now w =
     (let s = state w in
      case recording_file s of
        Some f \<Rightarrow>
          if recording s \<and> f \<noteq> []
          then let filepath = path_join RECORDING_DIR f in
               if path_exists (files w) filepath
               then let size_mb = real (getsize (files w) filepath) / (1024 * 1024) in
                    if size_mb > MAX_RECORDING_SIZE_MB then fst (stop_recording now w) else w
               else w
          else w
      | None \<Rightarrow> w)"

text \<open>
  The body of a pass of \<^verbatim>\<open>pi_server_enhanced.stream_video\<close> from the captured frame
  up to the send (printing and sleeping leave no trace in the state). \<^verbatim>\<open>pack\<close> is not
  inside any handler that catches \<^verbatim>\<open>struct.error\<close>, so its exception leaves the loop,
  with the state as it was at that point.
\<close>

definition stream_frame ::
  "codec \<Rightarrow> iter_env \<Rightarrow> frame \<Rightarrow> pstate \<Rightarrow> (py_error \<times> pstate) + pstate" where
  "stream_frame cd e captured p =
     (let s = state (pw p);
          frame = (if (f_height captured, f_width captured)
                        \<noteq> (snd (resolution s), fst (resolution s))
                   then cv_resize cd captured (resolution s) else captured);
          p1 = p\<lparr>pw := fst (write_frame \<lparr>fw_bytes = mjpg_encode cd frame,
                                          fw_flush = write_flush e,
                                          fw_index = mjpg_index cd frame\<rparr> (pw p))\<rparr>;
          jpeg_bytes = imencode_jpg cd frame (encode_quality p)
      in case header_pack (seq p1) (time_ns e) of
           Inl err \<Rightarrow> Inl (err, p1)
         | Inr header \<Rightarrow> Inr (send_packet e (header @ jpeg_bytes) p1))"

text \<open>
  One pass of the \<^verbatim>\<open>while\<close> body, as one sequential step: the two \<^verbatim>\<open>continue\<close>
  exits, then the frame, then the size check.
\<close>

definition stream_iter :: "codec \<Rightarrow> iter_env \<Rightarrow> pstate \<Rightarrow> (py_error \<times> pstate) + pstate" where
  "stream_iter cd e p =
     (if \<not> streaming (state (pw p)) then Inr p
      else case camera_read e of
        None \<Rightarrow> Inr p
      | Some captured \<Rightarrow>
          (case stream_frame cd e captured p of
             Inl x \<Rightarrow> Inl x
           | Inr p2 \<Rightarrow> Inr (p2\<lparr>pw := check_recording_size (clock e) (pw p2)\<rparr>)))"

text \<open>
  The loop over the passes that take place: it ends when the flag is found cleared, at the
  first pass that raises, or with the last pass listed.
\<close>

fun stream_loop :: "codec \<Rightarrow> iter_env list \<Rightarrow> pstate \<Rightarrow> py_error option \<times> pstate" where
  "stream_loop cd [] p = (None, p)"
| "stream_loop cd (e # es) p =
     (if \<not> running (pw p) then (None, p)
      else case stream_iter cd e p of
             Inl (err, p') \<Rightarrow> (Some err, p')
           | Inr p' \<Rightarrow> stream_loop cd es p')"

text \<open>
  \<^verbatim>\<open>stream_video\<close>: nothing happens when the camera does not start; otherwise the loop,
  and the \<^verbatim>\<open>finally\<close> block, which stops a recording still active.
\<close>

definition stream_video ::
  "codec \<Rightarrow> bool \<Rightarrow> iter_env list \<Rightarrow> real \<Rightarrow> world \<Rightarrow> py_error option \<times> pstate" where
  "stream_video cd camera_started es final_clock w =
     (let p0 = \<lparr>pw = w, seq = 0, encode_quality = quality (state w), sent = []\<rparr> in
      if \<not> camera_started then (None, p0)
      else let (r, p) = stream_loop cd es p0;
               w' = (if recording (state (pw p))
                     then fst (stop_recording final_clock (pw p)) else pw p)
           in (r, p\<lparr>pw := w'\<rparr>))"

subsection \<open>The loop of \<^verbatim>\<open>main_lightweight.py\<close>\<close>

definition PC_IP :: string where "PC_IP = ''100.100.100.100''"
definition JPEG_QUALITY :: int where "JPEG_QUALITY = 40"
definition RESOLUTION :: "int \<times> int" where "RESOLUTION = (640, 480)"

record lw_state =
  lw_seq :: int
  lw_sent :: "(bytes \<times> addr) list"

text \<open>One pass of its body (the statistics counter only feeds a printed line).\<close>

definition lw_stream_iter ::
  "codec \<Rightarrow> iter_env \<Rightarrow> lw_state \<Rightarrow> (py_error \<times> lw_state) + lw_state" where
  "lw_stream_iter cd e p =
     (case camera_read e of
        None \<Rightarrow> Inr p
      | Some captured \<Rightarrow>
          let frame = (if (f_height captured, f_width captured)
                            \<noteq> (snd RESOLUTION, fst RESOLUTION)
                       then cv_resize cd captured RESOLUTION else captured);
              jpeg_bytes = imencode_jpg cd frame JPEG_QUALITY
          in case header_pack (lw_seq p) (time_ns e) of
               Inl err \<Rightarrow> Inl (err, p)
             | Inr header \<Rightarrow>
                 if sendto_ok e
                 then Inr (p\<lparr>lw_seq := lw_seq p + 1,
                             lw_sent := lw_sent p @ [(header @ jpeg_bytes, (PC_IP, VIDEO_PORT))]\<rparr>)
                 else Inr p)"

section \<open>The status server\<close>

text \<open>The dictionary \<^verbatim>\<open>get_stats\<close> returns, read at clock value \<open>now\<close>.\<close>

record stats =
  st_streaming :: bool
  st_recording :: bool
  st_fps :: int
  st_quality :: int
  st_resolution :: "int list"
  st_frames_sent :: int
  st_frames_recorded :: int
  st_uptime_seconds :: int
  st_recording_duration :: int
  st_recording_file :: "string option"
  st_camera_type :: string

definition get_stats :: "bool \<Rightarrow> real \<Rightarrow> StreamState \<Rightarrow> stats" where
  "get_stats use_picamera now s =
     (let uptime = now - session_start s;
          recording_duration =
            (case recording_start_time s of
               Some t0 \<Rightarrow> if recording s \<and> t0 \<noteq> 0 then now - t0 else 0
             | None \<Rightarrow> 0)
      in \<lparr>st_streaming = streaming s, st_recording = recording s, st_fps = fps s,
          st_quality = quality s,
          st_resolution = [fst (resolution s), snd (resolution s)],
          st_frames_sent = frames_sent s, st_frames_recorded = frames_recorded s,
          st_uptime_seconds = py_int uptime,
          st_recording_duration = py_int recording_duration,
          st_recording_file = recording_file s,
          st_camera_type = (if use_picamera then ''picamera2'' else ''opencv'')\<rparr>)"

text \<open>
  What a status connection needs beyond the world: the clock, which camera module was
  imported, and \<^verbatim>\<open>json.dumps\<close> of the statistics and of the directory listing (the
  listing is built from \<^verbatim>\<open>os.listdir\<close>, which the file model does not offer).
\<close>

record status_env =
  se_clock :: real
  se_use_picamera :: bool
  dumps_stats :: "stats \<Rightarrow> string"
  dumps_listing :: "filesystem \<Rightarrow> string"

definition startswith :: "string \<Rightarrow> string \<Rightarrow> bool" where
  "startswith s pre = (take (length pre) s = pre)"

text \<open>\<^verbatim>\<open>data.split(":", 1)[1]\<close>: what follows the first colon; \<open>None\<close> when there is none.\<close>

definition after_first_colon :: "string \<Rightarrow> string option" where
  "after_first_colon s =
     (case dropWhile (\<lambda>c. c \<noteq> CHR '':'') s of [] \<Rightarrow> None | c # rest \<Rightarrow> Some rest)"

text \<open>The read loop: \<^verbatim>\<open>f.read(8192)\<close> until it returns nothing.\<close>

function read_chunks :: "bytes \<Rightarrow> bytes list" where
  "read_chunks c = (if c = [] then [] else take 8192 c # read_chunks (drop 8192 c))"
  by pat_completeness auto
termination
  by (relation "measure length") auto

declare read_chunks.simps [simp del]

text \<open>The path a download request names.\<close>

definition download_path :: "pylib \<Rightarrow> string \<Rightarrow> string" where
  "download_path lib rest = path_join RECORDING_DIR (str_strip lib rest)"

text \<open>
  \<^verbatim>\<open>handle_status_client\<close> on the bytes \<^verbatim>\<open>recv\<close> returned: the payloads given to
  \<^verbatim>\<open>sendall\<close>, in order, and the exception the handler caught and logged, if any. The
  connection is taken to accept every send. \<^verbatim>\<open>os.path.exists\<close> and
  \<^verbatim>\<open>os.path.getsize\<close> also answer for a directory, on which \<^verbatim>\<open>open\<close> then raises.
\<close>

definition handle_status_client ::
  "pylib \<Rightarrow> status_env \<Rightarrow> bytes \<Rightarrow> world \<Rightarrow> bytes list \<times> py_error option" where
  "handle_status_client lib se received w =
     (case utf8_decode lib received of
        None \<Rightarrow> ([], Some UnicodeDecodeError)
      | Some text \<Rightarrow>
          let data = str_strip lib text in
          if data = ''STATUS''
          then ([encode (dumps_stats se (get_stats (se_use_picamera se) (se_clock se) (state w)))],
                None)
          else if data = ''LIST_RECORDINGS''
          then ([encode (dumps_listing se (files w))], None)
          else if startswith data ''DOWNLOAD:''
          then (case after_first_colon data of
                  None \<Rightarrow> ([], Some IndexError)
                | Some rest \<Rightarrow>
                    let filepath = download_path lib rest in
                    if \<not> path_exists (files w) filepath
                    then ([encode ''ERROR: File not found''], None)
                    else
                      let filesize = getsize (files w) filepath;
                          preamble = encode (''SIZE:'' @ str_of_nat filesize @ [CHR 0x0A])
                      in (case files w filepath of
                            Some (File content n) \<Rightarrow> (preamble # read_chunks content, None)
                          | _ \<Rightarrow> ([preamble], Some IsADirectoryError)))
          else ([], None))"

section \<open>Notions the properties are stated with\<close>

text \<open>The writer is open: the field holds a writer object whose \<^verbatim>\<open>isOpened()\<close> is true.\<close>

definition writer_is_open :: "StreamState \<Rightarrow> bool" where
  "writer_is_open s = (case video_writer s of Some vw \<Rightarrow> vw_opened vw | None \<Rightarrow> False)"

text \<open>The four recording fields agree.\<close>

definition recording_invariant :: "StreamState \<Rightarrow> bool" where
  "recording_invariant s =
     ((recording s \<longleftrightarrow> writer_is_open s) \<and>
      (recording s \<longleftrightarrow> recording_file s \<noteq> None) \<and>
      (recording s \<longleftrightarrow> recording_start_time s \<noteq> None))"

text \<open>The command a receive event carries after decoding, stripping and uppercasing, and its sender.\<close>

definition command_of :: "pylib \<Rightarrow> recv \<Rightarrow> string option" where
  "command_of lib r =
     (case r of
        Timeout \<Rightarrow> None
      | Datagram data sender \<Rightarrow>
          (case utf8_decode lib data of
             None \<Rightarrow> None
           | Some text \<Rightarrow> Some (str_upper lib (str_strip lib text))))"

definition sender_of :: "recv \<Rightarrow> addr option" where
  "sender_of r = (case r of Timeout \<Rightarrow> None | Datagram data sender \<Rightarrow> Some sender)"

text \<open>
  Where an absolute path leads: its components, with empty and \<^verbatim>\<open>.\<close> components dropped
  and each \<^verbatim>\<open>..\<close> taking the last one away (symbolic links are not modelled). A path
  lies within the recordings directory when it leads strictly below it.
\<close>

fun split_path :: "string \<Rightarrow> string list" where
  "split_path [] = [[]]"
| "split_path (c # cs) =
     (if c = CHR ''/'' then [] # split_path cs
      else (case split_path cs of x # xs \<Rightarrow> (c # x) # xs | [] \<Rightarrow> [[c]]))"

definition resolve :: "string \<Rightarrow> string list" where
  "resolve p =
     foldl (\<lambda>acc c. if c = [] \<or> c = ''.'' then acc
                     else if c = ''..'' then butlast acc
                     else acc @ [c])
       [] (split_path p)"

definition within_recordings :: "string \<Rightarrow> bool" where
  "within_recordings p =
     (length (resolve RECORDING_DIR) < length (resolve p) \<and>
      take (length (resolve RECORDING_DIR)) (resolve p) = resolve RECORDING_DIR)"

text \<open>The cap of 500 MB in bytes.\<close>

definition cap_bytes :: nat where
  "cap_bytes = 524288000"

text \<open>
  What the size check of a pass tests: a recording is active under a non-empty name, its
  file exists, and the size reported for it is above the cap.
\<close>

definition over_cap :: "world \<Rightarrow> bool" where
  "over_cap w =
     (case recording_file (state w) of
        None \<Rightarrow> False
      | Some f \<Rightarrow>
          recording (state w) \<and> f \<noteq> [] \<and>
          path_exists (files w) (path_join RECORDING_DIR f) \<and>
          cap_bytes < getsize (files w) (path_join RECORDING_DIR f))"

text \<open>
  A pass hands a frame to the transport: streaming is on, the camera delivered a frame, a
  non-empty control endpoint is known and \<^verbatim>\<open>sendto\<close> returned.
\<close>

definition hands_to_transport :: "iter_env \<Rightarrow> pstate \<Rightarrow> bool" where
  "hands_to_transport e p =
     (streaming (state (pw p)) \<and> camera_read e \<noteq> None \<and>
      (case pc_ip (state (pw p)) of Some ip \<Rightarrow> ip \<noteq> [] | None \<Rightarrow> False) \<and>
      sendto_ok e)"

section \<open>Concrete inputs\<close>

definition env_ok :: rec_env where
  "env_ok = \<lparr>strftime_now = ''20240101_120000'', time_now = 100,
              writer_open = (\<lambda>p fs. (True, fs(p \<mapsto> File [] 0)))\<rparr>"

text \<open>A constructor that leaves an empty file behind and a writer that is not opened.\<close>

definition env_fail :: rec_env where
  "env_fail = \<lparr>strftime_now = ''20240101_120000'', time_now = 100,
                writer_open = (\<lambda>p fs. (False, fs(p \<mapsto> File [] 0)))\<rparr>"

definition world0 :: world where
  "world0 = \<lparr>state = init_state 0, files = [RECORDING_DIR \<mapsto> Dir 4096], running = True\<rparr>"

definition pc_a :: addr where "pc_a = (''100.64.0.1'', 40000)"
definition pc_b :: addr where "pc_b = (''100.64.0.2'', 40001)"

definition start_stop_run :: "(rec_env \<times> recv) list" where
  "start_stop_run =
     [(env_ok, Datagram (encode ''START'') pc_a),
      (env_ok, Datagram (encode ''stop'') pc_a),
      (env_ok, Datagram (encode '' start '') pc_b)]"

definition codec0 :: codec where
  "codec0 = \<lparr>cv_resize = (\<lambda>f r. f\<lparr>f_height := snd r, f_width := fst r\<rparr>),
             imencode_jpg = (\<lambda>f q. [255, 216, 255, 217]),
             mjpg_encode = (\<lambda>f. [1, 2, 3]),
             mjpg_index = (\<lambda>f. [9, 9])\<rparr>"

definition pass0 :: iter_env where
  "pass0 = \<lparr>camera_read = Some \<lparr>f_height = 480, f_width = 640, f_pixels = []\<rparr>,
            write_flush = 3, time_ns = 1700000000000000000, sendto_ok = True, clock = 200\<rparr>"

definition streaming_world :: world where
  "streaming_world =
     world0\<lparr>state := (state world0)\<lparr>streaming := True, pc_ip := Some ''100.64.0.1''\<rparr>\<rparr>"

text \<open>The loop after \<open>2\<^sup>3\<^sup>2 - 1\<close> frames have been sent.\<close>

definition p_last :: pstate where
  "p_last = \<lparr>pw = streaming_world, seq = 4294967295, encode_quality = 40, sent = []\<rparr>"

text \<open>
  A disk that resolves paths: one recording in the recordings directory and one file
  elsewhere.
\<close>

definition clip :: bytes where "clip = [82, 73, 70, 70, 1, 2, 3]"
definition secret :: bytes where "secret = [114, 111, 111, 116]"

definition example_disk :: filesystem where
  "example_disk p =
     (let r = resolve p in
      if r = [''home'', ''pi'', ''recordings'', ''clip.avi''] then Some (File clip 7)
      else if r = [''etc'', ''passwd''] then Some (File secret 4)
      else if r \<in> set [[], [''home''], [''home'', ''pi''], [''home'', ''pi'', ''recordings''],
                        [''etc'']]
      then Some (Dir 4096)
      else None)"

definition disk_world :: world where
  "disk_world = \<lparr>state = init_state 0, files = example_disk, running = True\<rparr>"

definition se0 :: status_env where
  "se0 = \<lparr>se_clock = 300, se_use_picamera = False, dumps_stats = (\<lambda>s. ''{}''),
          dumps_listing = (\<lambda>fs. ''[]'')\<rparr>"

lemmas disk_eval = download_path_def path_join_def RECORDING_DIR_def resolve_def
  within_recordings_def example_disk_def disk_world_def se0_def clip_def secret_def
  startswith_def after_first_colon_def path_exists_def getsize_def Let_def

text \<open>A recording whose file has just reached the cap, while streaming to a viewer.\<close>

definition big_content :: bytes where
  "big_content = replicate cap_bytes 0"

definition full_world :: world where
  "full_world =
     \<lparr>state = (init_state 0)\<lparr>streaming := True, pc_ip := Some ''100.64.0.1'',
          recording := True, recording_file := Some ''full.avi'',
          recording_start_time := Some 100,
          video_writer := Some \<lparr>vw_path = ''/home/pi/recordings/full.avi'', vw_opened = True,
                                 vw_pending = [], vw_index = []\<rparr>\<rparr>,
      files = [''/home/pi/recordings/full.avi'' \<mapsto> File big_content cap_bytes],
      running = True\<rparr>"

definition p_full :: pstate where
  "p_full = \<lparr>pw = full_world, seq = 0, encode_quality = 40, sent = []\<rparr>"

text \<open>
  A pass in which the writer keeps the frame in its buffer, and one in which it puts six
  bytes, two frames, into the file.
\<close>

definition pass_hold :: iter_env where
  "pass_hold = pass0\<lparr>write_flush := 0\<rparr>"

definition pass_flush :: iter_env where
  "pass_flush = pass0\<lparr>write_flush := 6\<rparr>"

lemmas ascii_eval = command_of_def sender_of_def ascii_lib_def ascii_decode_def encode_def
  ascii_upper_char_def ascii_strip_def ascii_space_def char_of_def bit_0

lemmas run_eval = stream_iter_def stream_frame_def send_packet_def check_recording_size_def
  write_frame_def
  header_pack_def codec0_def pass0_def streaming_world_def world0_def init_state_def
  p_last_def Let_def

section \<open>Recording state\<close>

lemma recording_invariant_init: "recording_invariant (init_state t)"
  by (simp add: recording_invariant_def writer_is_open_def init_state_def)

lemma recording_invariant_start:
  "recording_invariant (state w) \<Longrightarrow> recording_invariant (state (fst (start_recording e fn w)))"
  by (auto simp: recording_invariant_def writer_is_open_def start_recording_def Let_def split_beta
           split: option.splits)

lemma recording_invariant_stop:
  "recording_invariant (state w) \<Longrightarrow> recording_invariant (state (fst (stop_recording now w)))"
  by (auto simp: recording_invariant_def writer_is_open_def stop_recording_def Let_def
           split: option.splits)

lemma recording_invariant_write:
  "recording_invariant (state w) \<Longrightarrow> recording_invariant (state (fst (write_frame enc w)))"
  by (auto simp: recording_invariant_def writer_is_open_def write_frame_def Let_def
           split: option.splits)

lemma start_recording_unopened:
  "\<not> recording (state w) \<Longrightarrow>
   \<not> fst (writer_open e (path_join RECORDING_DIR (recording_name e fn)) (files w)) \<Longrightarrow>
   state (fst (start_recording e fn w)) =
     (state w)\<lparr>video_writer :=
        Some \<lparr>vw_path = path_join RECORDING_DIR (recording_name e fn), vw_opened = False,
              vw_pending = [], vw_index = []\<rparr>\<rparr> \<and>
   running (fst (start_recording e fn w)) = running w \<and>
   snd (start_recording e fn w) = (False, ''Failed to create video writer'')"
  by (simp add: start_recording_def Let_def split_beta)

text \<open>
  C1, as the code has it. The invariant (recording if and only if the writer is open,
  if and only if a recording file is named, if and only if a start time is stored) holds
  in the initial state and is kept by \<^verbatim>\<open>start_recording\<close>, \<^verbatim>\<open>stop_recording\<close> and
  \<^verbatim>\<open>write_frame\<close>, each of which is one atomic step. A \<^verbatim>\<open>start_recording\<close> whose
  writer does not open leaves \<open>recording\<close>, \<open>recording_file\<close>,
  \<open>recording_start_time\<close>, \<open>frames_recorded\<close> and every other field of the state as
  they were, except \<open>video_writer\<close>, which then holds the writer object that did not
  open.
\<close>

theorem recording_fields_move_together:
  "recording_invariant (init_state t) \<and>
   (recording_invariant (state w) \<longrightarrow>
      recording_invariant (state (fst (start_recording e fn w))) \<and>
      recording_invariant (state (fst (stop_recording now w))) \<and>
      recording_invariant (state (fst (write_frame enc w)))) \<and>
   (\<not> recording (state w) \<and>
    \<not> fst (writer_open e (path_join RECORDING_DIR (recording_name e fn)) (files w)) \<longrightarrow>
      state (fst (start_recording e fn w)) =
        (state w)\<lparr>video_writer :=
           Some \<lparr>vw_path = path_join RECORDING_DIR (recording_name e fn), vw_opened = False,
                 vw_pending = [], vw_index = []\<rparr>\<rparr> \<and>
      snd (start_recording e fn w) = (False, ''Failed to create video writer''))"
  using recording_invariant_init recording_invariant_start recording_invariant_stop
    recording_invariant_write start_recording_unopened
  by blast

theorem recording_fields_move_together_witness:
  "recording_invariant (state world0) \<and>
   \<not> recording (state world0) \<and>
   \<not> fst (writer_open env_fail (path_join RECORDING_DIR (recording_name env_fail None))
           (files world0)) \<and>
   recording_invariant (state (fst (start_recording env_ok None world0))) \<and>
   recording (state (fst (start_recording env_ok None world0))) \<and>
   recording_invariant (state (fst (stop_recording 107 world0))) \<and>
   recording_invariant
     (state (fst (write_frame \<lparr>fw_bytes = [1, 2, 3], fw_flush = 3, fw_index = []\<rparr> world0))) \<and>
   fst (snd (start_recording env_fail None world0)) = False \<and>
   recording_invariant (state (fst (start_recording env_fail None world0)))"
proof -
  have h1: "recording_invariant (state world0)"
    by (simp add: world0_def recording_invariant_def writer_is_open_def init_state_def)
  have h2: "\<not> recording (state world0)"
    by (simp add: world0_def init_state_def)
  have h3: "\<not> fst (writer_open env_fail (path_join RECORDING_DIR (recording_name env_fail None))
           (files world0))"
    by (simp add: env_fail_def)
  have r: "recording (state (fst (start_recording env_ok None world0)))"
    by (simp add: start_recording_def world0_def env_ok_def init_state_def Let_def)
  note t = recording_fields_move_together
  from t [of 0 world0 env_ok None 107 "\<lparr>fw_bytes = [1, 2, 3], fw_flush = 3, fw_index = []\<rparr>"] h1
  have a: "recording_invariant (state (fst (start_recording env_ok None world0))) \<and>
      recording_invariant (state (fst (stop_recording 107 world0))) \<and>
      recording_invariant
        (state (fst (write_frame \<lparr>fw_bytes = [1, 2, 3], fw_flush = 3, fw_index = []\<rparr> world0)))"
    by blast
  from t [of 0 world0 env_fail None 107 "\<lparr>fw_bytes = [1, 2, 3], fw_flush = 3, fw_index = []\<rparr>"] h1
  have b: "recording_invariant (state (fst (start_recording env_fail None world0)))"
    by blast
  from t [of 0 world0 env_fail None 107 "\<lparr>fw_bytes = [1, 2, 3], fw_flush = 3, fw_index = []\<rparr>"] h2 h3
  have "snd (start_recording env_fail None world0) = (False, ''Failed to create video writer'')"
    by blast
  then have c: "fst (snd (start_recording env_fail None world0)) = False"
    by simp
  from h1 h2 h3 r a b c show ?thesis by blast
qed

text \<open>
  C1 as stated fails: from the initial state, a \<^verbatim>\<open>start_recording\<close> whose writer does
  not open changes the state, and leaves a writer set while \<open>recording\<close> is false.
\<close>

theorem failed_start_changes_writer:
  "fst (snd (start_recording env_fail None world0)) = False \<and>
   state (fst (start_recording env_fail None world0)) \<noteq> state world0 \<and>
   video_writer (state world0) = None \<and>
   video_writer (state (fst (start_recording env_fail None world0))) \<noteq> None \<and>
   \<not> recording (state (fst (start_recording env_fail None world0)))"
  by (simp add: start_recording_def world0_def env_fail_def init_state_def Let_def)

text \<open>
  The constructor has run by the time \<^verbatim>\<open>isOpened()\<close> is tested, so a start that fails
  can still have touched the disk: here it leaves an empty file where there was none.
\<close>

lemma failed_start_touches_disk:
  "files world0 ''/home/pi/recordings/recording_20240101_120000.avi'' = None \<and>
   files (fst (start_recording env_fail None world0))
       ''/home/pi/recordings/recording_20240101_120000.avi'' = Some (File [] 0)"
  by (simp add: start_recording_def world0_def env_fail_def init_state_def Let_def
        recording_name_def path_join_def RECORDING_DIR_def)

text \<open>
  C4. Whenever \<open>recording\<close> is already true, \<^verbatim>\<open>start_recording\<close> changes nothing at all
  (no field of the state, no file) and returns the failure pair with the message
  \<^verbatim>\<open>Already recording\<close>, which the command listener sends as the reply to
  \<^verbatim>\<open>RECORD_START\<close>.
\<close>

theorem start_recording_twice:
  "recording (state w) \<Longrightarrow>
   start_recording e filename w = (w, (False, ''Already recording'')) \<and>
   process_command e ''RECORD_START'' sender w = (w, ''Already recording'')"
  by (simp add: start_recording_def process_command_def)

theorem start_recording_twice_witness:
  "recording (state (fst (start_recording env_ok None world0))) \<and>
   start_recording env_ok None (fst (start_recording env_ok None world0))
     = (fst (start_recording env_ok None world0), (False, ''Already recording'')) \<and>
   process_command env_ok ''RECORD_START'' pc_a (fst (start_recording env_ok None world0))
     = (fst (start_recording env_ok None world0), ''Already recording'')"
proof -
  have h: "recording (state (fst (start_recording env_ok None world0)))"
    by (simp add: start_recording_def world0_def env_ok_def init_state_def Let_def)
  from h start_recording_twice [OF h, of env_ok None pc_a] show ?thesis by simp
qed

text \<open>
  C5. Whenever \<open>recording\<close> is false, \<^verbatim>\<open>stop_recording\<close> returns the failure pair with
  the message \<^verbatim>\<open>Not recording\<close> and changes nothing; it returns before any call that
  could raise. The command listener sends that message as the reply to \<^verbatim>\<open>RECORD_STOP\<close>.
\<close>

theorem stop_recording_idle:
  "\<not> recording (state w) \<Longrightarrow>
   stop_recording now w = (w, (False, ''Not recording'')) \<and>
   process_command e ''RECORD_STOP'' sender w = (w, ''Not recording'')"
  by (simp add: stop_recording_def process_command_def)

theorem stop_recording_idle_witness:
  "\<not> recording (state world0) \<and>
   stop_recording 107 world0 = (world0, (False, ''Not recording'')) \<and>
   process_command env_ok ''RECORD_STOP'' pc_a world0 = (world0, ''Not recording'')"
proof -
  have h: "\<not> recording (state world0)"
    by (simp add: world0_def init_state_def)
  from h stop_recording_idle [OF h, of 107 env_ok pc_a] show ?thesis by simp
qed

section \<open>Commands\<close>

lemma listen_step_START:
  "command_of lib r = Some ''START'' \<Longrightarrow>
   fst (listen_step lib e r w) =
     w\<lparr>state := (state w)\<lparr>streaming := True, pc_ip := map_option fst (sender_of r)\<rparr>\<rparr>"
  by (auto simp: command_of_def sender_of_def listen_step_def process_command_def
           split: recv.splits option.splits)

lemma listen_step_STOP:
  "command_of lib r = Some ''STOP'' \<Longrightarrow>
   fst (listen_step lib e r w) = w\<lparr>state := (state w)\<lparr>streaming := False\<rparr>\<rparr>"
  by (auto simp: command_of_def sender_of_def listen_step_def process_command_def
           split: recv.splits option.splits)

lemma listen_for_commands_Cons:
  "running w \<Longrightarrow>
   fst (listen_for_commands lib ((e, r) # rs) w) =
     fst (listen_for_commands lib rs (fst (listen_step lib e r w)))"
  by (simp add: split_beta Let_def)

lemma start_stop_sequence:
  "rs \<noteq> [] \<Longrightarrow> running w \<Longrightarrow>
   \<forall>x \<in> set rs. command_of lib (snd x) = Some ''START'' \<or> command_of lib (snd x) = Some ''STOP'' \<Longrightarrow>
   streaming (state (fst (listen_for_commands lib rs w)))
     = (command_of lib (snd (last rs)) = Some ''START'') \<and>
   running (fst (listen_for_commands lib rs w)) \<and>
   (command_of lib (snd (last rs)) = Some ''START'' \<longrightarrow>
      pc_ip (state (fst (listen_for_commands lib rs w)))
        = map_option fst (sender_of (snd (last rs))))"
proof (induction rs arbitrary: w rule: list_nonempty_induct)
  case (single x)
  obtain e r where x: "x = (e, r)" by (cases x)
  from single have "command_of lib r = Some ''START'' \<or> command_of lib r = Some ''STOP''"
    by (simp add: x)
  then show ?case
  proof
    assume c: "command_of lib r = Some ''START''"
    show ?thesis using single(1) by (simp add: x listen_for_commands_Cons listen_step_START [OF c] c)
  next
    assume c: "command_of lib r = Some ''STOP''"
    show ?thesis using single(1) by (simp add: x listen_for_commands_Cons listen_step_STOP [OF c] c)
  qed
next
  case (cons x xs)
  obtain e r where x: "x = (e, r)" by (cases x)
  from cons.prems have "command_of lib r = Some ''START'' \<or> command_of lib r = Some ''STOP''"
    by (simp add: x)
  then have run1: "running (fst (listen_step lib e r w))"
    using cons.prems(1) by (auto simp: listen_step_START listen_step_STOP)
  have rest: "\<forall>y \<in> set xs. command_of lib (snd y) = Some ''START'' \<or> command_of lib (snd y) = Some ''STOP''"
    using cons.prems(2) by simp
  have eq: "fst (listen_for_commands lib (x # xs) w)
      = fst (listen_for_commands lib xs (fst (listen_step lib e r w)))"
    using cons.prems(1) by (simp only: x listen_for_commands_Cons)
  have l: "last (x # xs) = last xs" using cons.hyps by simp
  show ?case unfolding eq l by (rule cons.IH [OF run1 rest])
qed

text \<open>
  C6. Take any non-empty sequence of datagrams, each of which normalises to
  \<^verbatim>\<open>START\<close> or \<^verbatim>\<open>STOP\<close>, received by the running command listener in any world.
  Afterwards \<open>streaming\<close> is true exactly when the last command was \<^verbatim>\<open>START\<close> (so it
  is false when the last was \<^verbatim>\<open>STOP\<close>), and after a last \<^verbatim>\<open>START\<close> the control endpoint
  \<open>pc_ip\<close> is the address of its sender.
\<close>

theorem streaming_follows_last_command:
  "rs \<noteq> [] \<Longrightarrow> running w \<Longrightarrow>
   \<forall>x \<in> set rs. command_of lib (snd x) = Some ''START'' \<or> command_of lib (snd x) = Some ''STOP'' \<Longrightarrow>
   streaming (state (fst (listen_for_commands lib rs w)))
     = (command_of lib (snd (last rs)) = Some ''START'') \<and>
   (command_of lib (snd (last rs)) = Some ''START'' \<longrightarrow>
      pc_ip (state (fst (listen_for_commands lib rs w)))
        = map_option fst (sender_of (snd (last rs))))"
  using start_stop_sequence [of rs w lib] by blast

theorem streaming_follows_last_command_witness:
  "start_stop_run \<noteq> [] \<and> running world0 \<and>
   map (\<lambda>x. command_of ascii_lib (snd x)) start_stop_run
     = [Some ''START'', Some ''STOP'', Some ''START''] \<and>
   command_of ascii_lib (snd (last start_stop_run)) = Some ''START'' \<and>
   streaming (state (fst (listen_for_commands ascii_lib start_stop_run world0))) \<and>
   pc_ip (state (fst (listen_for_commands ascii_lib start_stop_run world0))) = Some ''100.64.0.2''"
proof -
  have h1: "start_stop_run \<noteq> []" by (simp add: start_stop_run_def)
  have h2: "running world0" by (simp add: world0_def)
  have h3: "\<forall>x \<in> set start_stop_run.
      command_of ascii_lib (snd x) = Some ''START'' \<or> command_of ascii_lib (snd x) = Some ''STOP''"
    by (simp add: start_stop_run_def ascii_eval)
  have h4: "command_of ascii_lib (snd (last start_stop_run)) = Some ''START''"
    by (simp add: start_stop_run_def ascii_eval)
  have h5: "map_option fst (sender_of (snd (last start_stop_run))) = Some ''100.64.0.2''"
    by (simp add: start_stop_run_def sender_of_def pc_b_def)
  from streaming_follows_last_command [OF h1 h2 h3] h4 h5
  have "streaming (state (fst (listen_for_commands ascii_lib start_stop_run world0))) \<and>
   pc_ip (state (fst (listen_for_commands ascii_lib start_stop_run world0))) = Some ''100.64.0.2''"
    by simp
  moreover have "map (\<lambda>x. command_of ascii_lib (snd x)) start_stop_run
     = [Some ''START'', Some ''STOP'', Some ''START'']"
    by (simp add: start_stop_run_def ascii_eval)
  ultimately show ?thesis using h1 h2 h4 by blast
qed

text \<open>
  C10. A datagram that decodes, and whose stripped and uppercased text is none of the six
  commands, leaves the world (the shared state, the files and the running flag) as it
  was, and the listener answers its sender with the one datagram \<^verbatim>\<open>OK\<close>. Whatever
  the command, a datagram that decodes gets exactly one reply, addressed to its sender.
\<close>

theorem unknown_command_replies_OK:
  "utf8_decode lib data = Some text \<Longrightarrow>
   (str_upper lib (str_strip lib text)
      \<notin> {''START'', ''STOP'', ''RECORD_START'', ''RECORD_STOP'', ''PING'', ''SHUTDOWN''} \<longrightarrow>
    listen_step lib e (Datagram data sender) w = (w, [(encode ''OK'', sender)])) \<and>
   length (snd (listen_step lib e (Datagram data sender) w)) = 1 \<and>
   snd (hd (snd (listen_step lib e (Datagram data sender) w))) = sender"
  by (simp add: listen_step_def process_command_def split_beta Let_def)

theorem unknown_command_replies_OK_witness:
  "utf8_decode ascii_lib (encode ''hello'') = Some ''hello'' \<and>
   str_upper ascii_lib (str_strip ascii_lib ''hello'')
     \<notin> {''START'', ''STOP'', ''RECORD_START'', ''RECORD_STOP'', ''PING'', ''SHUTDOWN''} \<and>
   listen_step ascii_lib env_ok (Datagram (encode ''hello'') pc_a) world0
     = (world0, [(encode ''OK'', pc_a)])"
proof -
  have h1: "utf8_decode ascii_lib (encode ''hello'') = Some ''hello''"
    by (simp add: ascii_eval)
  have h2: "str_upper ascii_lib (str_strip ascii_lib ''hello'')
     \<notin> {''START'', ''STOP'', ''RECORD_START'', ''RECORD_STOP'', ''PING'', ''SHUTDOWN''}"
    by (simp add: ascii_eval)
  from h1 h2 unknown_command_replies_OK [OF h1, of env_ok pc_a world0]
  show ?thesis by blast
qed

section \<open>Packet header and sequence numbers\<close>

lemma length_be_bytes: "length (be_bytes n x) = n"
  by (induction n arbitrary: x) auto

lemma be_int_snoc: "be_int (b @ [x]) = be_int b * 256 + uint x"
  by (simp add: be_int_def)

lemma uint_byte: "uint (word_of_int x :: byte) = x mod 256"
  by (simp add: uint_word_of_int)

lemma be_int_be_bytes: "0 \<le> x \<Longrightarrow> x < 256 ^ n \<Longrightarrow> be_int (be_bytes n x) = x"
proof (induction n arbitrary: x)
  case 0
  then show ?case by (simp add: be_int_def)
next
  case (Suc n)
  have "0 \<le> x div 256" using Suc.prems(1) by simp
  moreover have "x div 256 < 256 ^ n" using Suc.prems(2) by simp
  ultimately have "be_int (be_bytes n (x div 256)) = x div 256" by (rule Suc.IH)
  then show ?case by (simp add: be_int_snoc uint_byte)
qed

lemma header_pack_in_range:
  "0 \<le> sq \<Longrightarrow> sq < 2 ^ 32 \<Longrightarrow> 0 \<le> ts \<Longrightarrow> ts < 2 ^ 64 \<Longrightarrow>
   header_pack sq ts = Inr (be_bytes 4 sq @ be_bytes 8 ts)"
  by (simp add: header_pack_def)

lemma header_pack_overflow: "2 ^ 32 \<le> sq \<Longrightarrow> header_pack sq ts = Inl StructError"
  by (simp add: header_pack_def)

text \<open>
  C3. For every sequence number from 0 below \<open>2\<^sup>3\<^sup>2\<close> and every timestamp from 0 below
  \<open>2\<^sup>6\<^sup>4\<close>, packing succeeds, gives 12 bytes, and unpacking them gives back exactly the
  two numbers; the same holds for the first 12 bytes of any packet that starts with the
  header.
\<close>

theorem header_roundtrip:
  "0 \<le> sq \<Longrightarrow> sq < 2 ^ 32 \<Longrightarrow> 0 \<le> ts \<Longrightarrow> ts < 2 ^ 64 \<Longrightarrow>
   (\<exists>h. header_pack sq ts = Inr h \<and> length h = 12 \<and> header_unpack h = Inr (sq, ts) \<and>
        (\<forall>payload. header_unpack (take 12 (h @ payload)) = Inr (sq, ts)))"
proof -
  assume a: "0 \<le> sq" "sq < 2 ^ 32" "0 \<le> ts" "ts < 2 ^ 64"
  let ?h = "be_bytes 4 sq @ be_bytes 8 ts"
  have p: "header_pack sq ts = Inr ?h" using a by (rule header_pack_in_range)
  have l: "length ?h = 12" by (simp add: length_be_bytes)
  have s: "be_int (be_bytes 4 sq) = sq" using a by (intro be_int_be_bytes) simp_all
  have t: "be_int (be_bytes 8 ts) = ts" using a by (intro be_int_be_bytes) simp_all
  have u: "header_unpack ?h = Inr (sq, ts)"
    unfolding header_unpack_def using l s t by (simp add: length_be_bytes)
  have "\<forall>payload. take 12 (?h @ payload) = ?h" using l by simp
  with p l u show ?thesis by metis
qed

theorem header_roundtrip_witness:
  "(0::int) \<le> 4294967295 \<and> (4294967295::int) < 2 ^ 32 \<and>
   (0::int) \<le> 1700000000000000000 \<and> (1700000000000000000::int) < 2 ^ 64 \<and>
   (\<exists>h. header_pack 4294967295 1700000000000000000 = Inr h \<and> length h = 12 \<and>
        header_unpack h = Inr (4294967295, 1700000000000000000))"
proof -
  have h1: "(0::int) \<le> 4294967295" by simp
  have h2: "(4294967295::int) < 2 ^ 32" by simp
  have h3: "(0::int) \<le> 1700000000000000000" by simp
  have h4: "(1700000000000000000::int) < 2 ^ 64" by simp
  from header_roundtrip [OF h1 h2 h3 h4] h1 h2 h3 h4 show ?thesis by blast
qed

lemma write_frame_keeps:
  "pc_ip (state (fst (write_frame enc w))) = pc_ip (state w)"
  "streaming (state (fst (write_frame enc w))) = streaming (state w)"
  "running (fst (write_frame enc w)) = running w"
  by (auto simp: write_frame_def Let_def split: option.splits)

lemma stream_iter_seq:
  assumes "0 \<le> seq p" "seq p < 2 ^ 32" "0 \<le> time_ns e" "time_ns e < 2 ^ 64"
  shows "\<exists>p'. stream_iter cd e p = Inr p' \<and>
           seq p' = (if hands_to_transport e p then seq p + 1 else seq p) \<and>
           (if hands_to_transport e p
            then \<exists>h jpeg dest. header_pack (seq p) (time_ns e) = Inr h \<and>
                   sent p' = sent p @ [(h @ jpeg, dest)]
            else sent p' = sent p)"
  using header_pack_in_range [OF assms]
  by (auto simp: stream_iter_def stream_frame_def Let_def send_packet_def
        hands_to_transport_def write_frame_keeps
      split: option.splits)

lemma stream_iter_overflow:
  assumes "streaming (state (pw p))" "camera_read e \<noteq> None" "2 ^ 32 \<le> seq p"
  shows "\<exists>p1. stream_iter cd e p = Inl (StructError, p1) \<and> seq p1 = seq p \<and> sent p1 = sent p"
  using assms header_pack_overflow [of "seq p" "time_ns e"]
  by (auto simp: stream_iter_def stream_frame_def Let_def split: option.splits)

lemma lw_stream_iter_seq:
  assumes "0 \<le> lw_seq p" "lw_seq p < 2 ^ 32" "0 \<le> time_ns e" "time_ns e < 2 ^ 64"
  shows "\<exists>p'. lw_stream_iter cd e p = Inr p' \<and>
           lw_seq p' = (if camera_read e \<noteq> None \<and> sendto_ok e then lw_seq p + 1 else lw_seq p)"
  using header_pack_in_range [OF assms]
  by (auto simp: lw_stream_iter_def Let_def split: option.splits)

lemma lw_stream_iter_overflow:
  assumes "camera_read e \<noteq> None" "2 ^ 32 \<le> lw_seq p"
  shows "lw_stream_iter cd e p = Inl (StructError, p)"
  using assms header_pack_overflow [of "lw_seq p" "time_ns e"]
  by (auto simp: lw_stream_iter_def Let_def split: option.splits)

text \<open>
  The counting itself is as the specification says while the number fits its field: a
  pass of either loop completes, the sequence number goes up by exactly one when the pass
  hands its frame to the transport and stays as it is otherwise (streaming off, no frame,
  no control endpoint, or a failed send), and the packet sent carries the number from
  before the increment.
\<close>

lemma seq_counts_sent_frames:
  "(0 \<le> seq p \<and> seq p < 2 ^ 32 \<and> 0 \<le> time_ns e \<and> time_ns e < 2 ^ 64 \<longrightarrow>
      (\<exists>p'. stream_iter cd e p = Inr p' \<and>
         seq p' = (if hands_to_transport e p then seq p + 1 else seq p) \<and>
         (if hands_to_transport e p
          then \<exists>h jpeg dest. header_pack (seq p) (time_ns e) = Inr h \<and>
                 sent p' = sent p @ [(h @ jpeg, dest)]
          else sent p' = sent p))) \<and>
   (0 \<le> lw_seq q \<and> lw_seq q < 2 ^ 32 \<and> 0 \<le> time_ns e \<and> time_ns e < 2 ^ 64 \<longrightarrow>
      (\<exists>q'. lw_stream_iter cd e q = Inr q' \<and>
         lw_seq q' = (if camera_read e \<noteq> None \<and> sendto_ok e then lw_seq q + 1 else lw_seq q)))"
  using stream_iter_seq [of p e cd] lw_stream_iter_seq [of q e cd]
  by blast

text \<open>
  C2. The sequence number is to wrap modulo \<open>2\<^sup>3\<^sup>2\<close>: after \<open>2\<^sup>3\<^sup>2 - 1\<close> the next
  packet sent is to carry 0. The code does not do that. The counter is an unbounded integer
  written into a 32-bit field: the pass that sends sequence number \<open>2\<^sup>3\<^sup>2 - 1\<close> leaves
  it at \<open>2\<^sup>3\<^sup>2\<close>, not 0, and the next pass raises \<^verbatim>\<open>struct.error\<close> at \<^verbatim>\<open>pack\<close>, outside
  any handler, without sending anything. The loop of \<^verbatim>\<open>main_lightweight.py\<close> does the
  same.
\<close>

theorem seq_does_not_wrap:
  "\<not> isl (stream_iter codec0 pass0 p_last) \<and>
   seq (projr (stream_iter codec0 pass0 p_last)) = 4294967296 \<and>
   seq (projr (stream_iter codec0 pass0 p_last)) \<noteq> 0 \<and>
   length (sent (projr (stream_iter codec0 pass0 p_last))) = 1 \<and>
   isl (stream_iter codec0 pass0 (projr (stream_iter codec0 pass0 p_last))) \<and>
   fst (projl (stream_iter codec0 pass0 (projr (stream_iter codec0 pass0 p_last)))) = StructError \<and>
   sent (snd (projl (stream_iter codec0 pass0 (projr (stream_iter codec0 pass0 p_last)))))
     = sent (projr (stream_iter codec0 pass0 p_last)) \<and>
   \<not> isl (lw_stream_iter codec0 pass0 \<lparr>lw_seq = 4294967295, lw_sent = []\<rparr>) \<and>
   lw_seq (projr (lw_stream_iter codec0 pass0 \<lparr>lw_seq = 4294967295, lw_sent = []\<rparr>))
     = 4294967296 \<and>
   lw_stream_iter codec0 pass0
       (projr (lw_stream_iter codec0 pass0 \<lparr>lw_seq = 4294967295, lw_sent = []\<rparr>))
     = Inl (StructError, projr (lw_stream_iter codec0 pass0 \<lparr>lw_seq = 4294967295, lw_sent = []\<rparr>))"
  by (simp add: run_eval lw_stream_iter_def RESOLUTION_def)

section \<open>Downloads\<close>

lemma concat_read_chunks: "concat (read_chunks c) = c"
proof (induction c rule: read_chunks.induct)
  case (1 c)
  show ?case
  proof (cases "c = []")
    case True
    then show ?thesis by (simp add: read_chunks.simps)
  next
    case False
    have "concat (read_chunks c) = take 8192 c @ concat (read_chunks (drop 8192 c))"
      using False by (subst read_chunks.simps) simp
    with 1 [OF False] show ?thesis by simp
  qed
qed

lemma read_chunks_sizes: "ch \<in> set (read_chunks c) \<Longrightarrow> ch \<noteq> [] \<and> length ch \<le> 8192"
proof (induction c rule: read_chunks.induct)
  case (1 c)
  show ?case
  proof (cases "c = []")
    case True
    with 1(2) show ?thesis by (simp add: read_chunks.simps)
  next
    case False
    have "read_chunks c = take 8192 c # read_chunks (drop 8192 c)"
      using False by (subst read_chunks.simps) simp
    with 1(2) have "ch = take 8192 c \<or> ch \<in> set (read_chunks (drop 8192 c))" by simp
    then show ?thesis
    proof
      assume "ch = take 8192 c"
      with False show ?thesis by simp
    next
      assume "ch \<in> set (read_chunks (drop 8192 c))"
      with 1(1) [OF False] show ?thesis by simp
    qed
  qed
qed

lemma read_chunks_full: "rs @ [l] = read_chunks c \<Longrightarrow> ch \<in> set rs \<Longrightarrow> length ch = 8192"
proof (induction c arbitrary: rs rule: read_chunks.induct)
  case (1 c)
  show ?case
  proof (cases "c = []")
    case True
    with 1(2) show ?thesis by (simp add: read_chunks.simps)
  next
    case False
    have eq: "read_chunks c = take 8192 c # read_chunks (drop 8192 c)"
      using False by (subst read_chunks.simps) simp
    show ?thesis
    proof (cases rs)
      case Nil
      with 1(3) show ?thesis by simp
    next
      case (Cons r rs')
      with 1(2) eq have r: "r = take 8192 c" and rest: "rs' @ [l] = read_chunks (drop 8192 c)"
        by simp_all
      from rest have "read_chunks (drop 8192 c) \<noteq> []" by (metis snoc_eq_iff_butlast)
      then have "drop 8192 c \<noteq> []" by (auto simp: read_chunks.simps)
      then have "length (take 8192 c) = 8192" by simp
      with 1(1) [OF False rest] 1(3) Cons r show ?thesis by auto
    qed
  qed
qed

lemma download_request:
  assumes "startswith data ''DOWNLOAD:''"
  shows "data \<noteq> ''STATUS''" "data \<noteq> ''LIST_RECORDINGS''"
    "after_first_colon data = Some (drop 9 data)"
proof -
  from assms have t: "take 9 data = ''DOWNLOAD:''" by (simp add: startswith_def eval_nat_numeral)
  then have d: "data = ''DOWNLOAD:'' @ drop 9 data" by (metis append_take_drop_id)
  show "data \<noteq> ''STATUS''" using t by auto
  show "data \<noteq> ''LIST_RECORDINGS''" using t by auto
  show "after_first_colon data = Some (drop 9 data)"
    by (subst d) (simp add: after_first_colon_def)
qed

text \<open>
  A request for a regular file, or for a path that holds nothing, is answered as the
  specification says. Take a request that decodes and, once stripped, starts with
  \<^verbatim>\<open>DOWNLOAD:\<close>; the path is the recordings directory joined with the stripped rest. If
  nothing exists at the path, the handler sends the one message
  \<^verbatim>\<open>ERROR: File not found\<close> and no file bytes. If a regular file is there, it sends
  \<^verbatim>\<open>SIZE:\<close>, the size reported for the file in decimal and a newline, and then the
  content in chunks: the chunks put together are exactly the content, none is empty, none
  is longer than 8192 bytes, and all but the last have exactly 8192.
\<close>

lemma download_reply:
  assumes "utf8_decode lib received = Some text"
    and "startswith (str_strip lib text) ''DOWNLOAD:''"
  shows "(files w (download_path lib (drop 9 (str_strip lib text))) = None \<longrightarrow>
            handle_status_client lib se received w = ([encode ''ERROR: File not found''], None)) \<and>
         (\<forall>content n.
            files w (download_path lib (drop 9 (str_strip lib text))) = Some (File content n) \<longrightarrow>
            handle_status_client lib se received w
              = (encode (''SIZE:'' @ str_of_nat n @ [CHR 0x0A]) # read_chunks content, None) \<and>
            concat (read_chunks content) = content \<and>
            (\<forall>ch \<in> set (read_chunks content). ch \<noteq> [] \<and> length ch \<le> 8192) \<and>
            (\<forall>ch \<in> set (butlast (read_chunks content)). length ch = 8192))"
proof -
  note r = download_request [OF assms(2)]
  have a: "files w (download_path lib (drop 9 (str_strip lib text))) = None \<Longrightarrow>
      handle_status_client lib se received w = ([encode ''ERROR: File not found''], None)"
    using assms r by (simp add: handle_status_client_def Let_def path_exists_def)
  have b: "handle_status_client lib se received w
        = (encode (''SIZE:'' @ str_of_nat n @ [CHR 0x0A]) # read_chunks content, None)"
    if "files w (download_path lib (drop 9 (str_strip lib text))) = Some (File content n)"
    for content n
    using assms r that by (simp add: handle_status_client_def Let_def path_exists_def getsize_def)
  have c: "\<forall>ch \<in> set (butlast (read_chunks content)). length ch = 8192" for content
  proof (cases "read_chunks content = []")
    case True
    then show ?thesis by simp
  next
    case False
    then have "butlast (read_chunks content) @ [last (read_chunks content)] = read_chunks content"
      by simp
    then show ?thesis using read_chunks_full by blast
  qed
  from a b c concat_read_chunks read_chunks_sizes show ?thesis by blast
qed

lemma download_reply_examples:
  "handle_status_client ascii_lib se0 (encode ''DOWNLOAD:missing.avi'') disk_world
     = ([encode ''ERROR: File not found''], None) \<and>
   handle_status_client ascii_lib se0 (encode ''DOWNLOAD: clip.avi'') disk_world
     = ([encode (''SIZE:7'' @ [CHR 0x0A]), clip], None)"
  by (simp add: handle_status_client_def disk_eval ascii_eval read_chunks.simps)

text \<open>
  A path that exists need not be a regular file. Whatever the library, the clock and the
  world: when the path of a download request is a directory, the handler sends the size
  preamble, \<^verbatim>\<open>open\<close> raises, and nothing follows the preamble.
\<close>

lemma download_of_any_directory:
  assumes "utf8_decode lib received = Some text"
    and "startswith (str_strip lib text) ''DOWNLOAD:''"
    and "files w (download_path lib (drop 9 (str_strip lib text))) = Some (Dir n)"
  shows "handle_status_client lib se received w
           = ([encode (''SIZE:'' @ str_of_nat n @ [CHR 0x0A])], Some IsADirectoryError)"
  using assms download_request [OF assms(2)]
  by (simp add: handle_status_client_def Let_def path_exists_def getsize_def)

text \<open>
  C8. Every \<^verbatim>\<open>DOWNLOAD:\<close> request is to get either the not-found message or the size
  preamble followed by the complete content. The code does not do that for a path that
  exists without being a regular file. A request with an empty name resolves to the
  recordings directory itself, which \<^verbatim>\<open>os.path.exists\<close> accepts: the handler announces
  \<^verbatim>\<open>SIZE:4096\<close>, \<^verbatim>\<open>open\<close> then raises, and the connection is closed with no content
  after the preamble and no not-found message.
\<close>

theorem download_of_directory:
  "download_path ascii_lib [] = ''/home/pi/recordings/'' \<and>
   path_exists (files disk_world) (download_path ascii_lib []) \<and>
   handle_status_client ascii_lib se0 (encode ''DOWNLOAD:'') disk_world
     = ([encode (''SIZE:4096'' @ [CHR 0x0A])], Some IsADirectoryError)"
  by (simp add: handle_status_client_def disk_eval ascii_eval)

text \<open>
  C9. The requested name is joined to the recordings directory as it is. The name
  \<^verbatim>\<open>clip.avi\<close> leads into the directory, but an absolute name and a name with
  parent-directory components both lead outside it, and the handler serves the file
  found there.
\<close>

theorem download_escapes_recordings:
  "within_recordings (download_path ascii_lib ''clip.avi'') \<and>
   \<not> within_recordings (download_path ascii_lib ''/etc/passwd'') \<and>
   handle_status_client ascii_lib se0 (encode ''DOWNLOAD:/etc/passwd'') disk_world
     = ([encode (''SIZE:4'' @ [CHR 0x0A]), secret], None) \<and>
   \<not> within_recordings (download_path ascii_lib ''../../../etc/passwd'') \<and>
   handle_status_client ascii_lib se0 (encode ''DOWNLOAD:../../../etc/passwd'') disk_world
     = ([encode (''SIZE:4'' @ [CHR 0x0A]), secret], None)"
  by (simp add: handle_status_client_def disk_eval ascii_eval read_chunks.simps)

section \<open>The recording size cap\<close>

lemma over_cap_iff:
  "(real n / (1024 * 1024) > MAX_RECORDING_SIZE_MB) = (cap_bytes < n)"
  by (simp add: MAX_RECORDING_SIZE_MB_def cap_bytes_def field_simps)

lemma check_recording_size_eq:
  "check_recording_size now w = (if over_cap w then fst (stop_recording now w) else w)"
  unfolding check_recording_size_def Let_def over_cap_iff
  by (simp add: over_cap_def split: option.splits)

lemma stop_recording_clears:
  "recording (state w) \<Longrightarrow>
   \<not> recording (state (fst (stop_recording now w))) \<and>
   recording_file (state (fst (stop_recording now w))) = None \<and>
   recording_start_time (state (fst (stop_recording now w))) = None \<and>
   video_writer (state (fst (stop_recording now w))) = None"
  by (simp add: stop_recording_def Let_def split: option.splits)

lemma check_recording_size_not_over: "\<not> over_cap (check_recording_size now w)"
proof (cases "over_cap w")
  case True
  then have "recording (state w)" by (simp add: over_cap_def split: option.splits)
  from stop_recording_clears [OF this, of now] True show ?thesis
    by (simp add: check_recording_size_eq over_cap_def)
next
  case False
  then show ?thesis by (simp add: check_recording_size_eq)
qed

lemma stream_iter_frame:
  "streaming (state (pw p)) \<Longrightarrow> camera_read e = Some captured \<Longrightarrow>
   stream_frame cd e captured p = Inr p2 \<Longrightarrow>
   stream_iter cd e p =
     Inr (p2\<lparr>pw := (if over_cap (pw p2) then fst (stop_recording (clock e) (pw p2)) else pw p2)\<rparr>)"
  by (simp add: stream_iter_def check_recording_size_eq)

lemma stream_iter_not_over:
  "streaming (state (pw p)) \<Longrightarrow> camera_read e \<noteq> None \<Longrightarrow> stream_iter cd e p = Inr p' \<Longrightarrow>
   \<not> over_cap (pw p')"
  by (auto simp: stream_iter_def check_recording_size_not_over split: sum.splits)

lemma stream_iter_keeps_not_over:
  "\<not> over_cap (pw p) \<Longrightarrow> stream_iter cd e p = Inr p' \<Longrightarrow> \<not> over_cap (pw p')"
  by (auto simp: stream_iter_def check_recording_size_not_over split: sum.splits option.splits if_splits)

lemma stream_loop_not_over:
  "\<not> over_cap (pw p) \<Longrightarrow> stream_loop cd es p = (None, q) \<Longrightarrow> \<not> over_cap (pw q)"
proof (induction es arbitrary: p)
  case Nil
  then show ?case by simp
next
  case (Cons e es)
  show ?case
  proof (cases "running (pw p)")
    case False
    with Cons.prems show ?thesis by simp
  next
    case True
    show ?thesis
    proof (cases "stream_iter cd e p")
      case (Inl x)
      with Cons.prems(2) True show ?thesis by (simp split: prod.splits)
    next
      case (Inr p1)
      with Cons.prems(2) True have "stream_loop cd es p1 = (None, q)" by simp
      with Cons.IH stream_iter_keeps_not_over [OF Cons.prems(1) Inr] show ?thesis by blast
    qed
  qed
qed

lemma write_frame_idle: "\<not> recording (state w) \<Longrightarrow> fst (write_frame enc w) = w"
  by (simp add: write_frame_def Let_def split: option.splits)

lemma stream_iter_idle:
  assumes "\<not> recording (state (pw p))"
  shows "case stream_iter cd e p of
           Inl (err, p') \<Rightarrow> files (pw p') = files (pw p) \<and> \<not> recording (state (pw p'))
         | Inr p' \<Rightarrow> files (pw p') = files (pw p) \<and> \<not> recording (state (pw p'))"
  using assms
  by (auto simp: stream_iter_def stream_frame_def Let_def write_frame_idle send_packet_def
        check_recording_size_eq over_cap_def
      split: option.splits sum.splits)

lemma stream_loop_idle:
  "\<not> recording (state (pw p)) \<Longrightarrow> stream_loop cd es p = (r, q) \<Longrightarrow>
   files (pw q) = files (pw p) \<and> \<not> recording (state (pw q))"
proof (induction es arbitrary: p)
  case Nil
  then show ?case by simp
next
  case (Cons e es)
  show ?case
  proof (cases "running (pw p)")
    case False
    with Cons.prems show ?thesis by simp
  next
    case True
    note it = stream_iter_idle [OF Cons.prems(1), of cd e]
    show ?thesis
    proof (cases "stream_iter cd e p")
      case (Inl x)
      obtain err p1 where x: "x = (err, p1)" by (cases x)
      from Cons.prems(2) True Inl x have "q = p1" by simp
      with it Inl x show ?thesis by simp
    next
      case (Inr p1)
      with it have a: "files (pw p1) = files (pw p)" and b: "\<not> recording (state (pw p1))"
        by simp_all
      from Cons.prems(2) True Inr have "stream_loop cd es p1 = (r, q)" by simp
      from Cons.IH [OF b this] a show ?thesis by simp
    qed
  qed
qed

lemma stream_video_ends_recording:
  "\<not> recording (state (pw (snd (stream_video cd True es t w))))"
  by (simp add: stream_video_def Let_def split_beta stop_recording_def split: option.splits)

lemmas full_eval = stream_iter_def stream_frame_def send_packet_def write_frame_def
  append_file_def release_def header_pack_def codec0_def pass0_def pass_hold_def pass_flush_def
  full_world_def init_state_def p_full_def Let_def path_exists_def getsize_def path_join_def
  RECORDING_DIR_def stop_recording_def over_cap_def

text \<open>
  C7, as the code has it. A pass that has taken a frame as far as the send ends with the
  size check: when the recording file on disk is over the cap the world after the pass is
  the one \<^verbatim>\<open>stop_recording\<close> returns, otherwise it is unchanged. So after every
  completed pass that handled a frame, and after every run that starts without a file over
  the cap and ends without an exception, no active recording has a file on disk over the
  cap; and once recording is off, the loop writes nothing more to any file. The size check
  sees only what the writer has put on disk; no bound by one frame on the final size is
  part of this.
\<close>

theorem size_check_invokes_stop:
  "(streaming (state (pw p)) \<and> camera_read e = Some captured \<and>
    stream_frame cd e captured p = Inr p2 \<longrightarrow>
      stream_iter cd e p =
        Inr (p2\<lparr>pw := (if over_cap (pw p2) then fst (stop_recording (clock e) (pw p2))
                        else pw p2)\<rparr>)) \<and>
   (streaming (state (pw p)) \<and> camera_read e \<noteq> None \<and> stream_iter cd e p = Inr p' \<longrightarrow>
      \<not> over_cap (pw p')) \<and>
   (\<not> over_cap (pw p) \<and> stream_loop cd es p = (None, q) \<longrightarrow> \<not> over_cap (pw q)) \<and>
   (\<not> recording (state (pw p)) \<and> stream_loop cd es p = (r, q') \<longrightarrow>
      files (pw q') = files (pw p) \<and> \<not> recording (state (pw q')))"
  using stream_iter_frame [of p e captured cd p2] stream_iter_not_over [of p e cd p']
    stream_loop_not_over [of p cd es q] stream_loop_idle [of p cd es r q']
  by blast

theorem size_check_invokes_stop_witness:
  "streaming (state (pw p_full)) \<and> \<not> over_cap (pw p_full) \<and>
   \<not> isl (stream_frame codec0 pass0 \<lparr>f_height = 480, f_width = 640, f_pixels = []\<rparr> p_full) \<and>
   over_cap (pw (projr (stream_frame codec0 pass0
                          \<lparr>f_height = 480, f_width = 640, f_pixels = []\<rparr> p_full))) \<and>
   pw (projr (stream_iter codec0 pass0 p_full))
     = fst (stop_recording 200
             (pw (projr (stream_frame codec0 pass0
                           \<lparr>f_height = 480, f_width = 640, f_pixels = []\<rparr> p_full)))) \<and>
   \<not> over_cap (pw (projr (stream_iter codec0 pass0 p_full))) \<and>
   \<not> over_cap (pw (snd (stream_loop codec0 [pass0, pass0] p_full))) \<and>
   \<not> recording (state (pw (projr (stream_iter codec0 pass0 p_full)))) \<and>
   files (pw (snd (stream_loop codec0 [pass0, pass0] (projr (stream_iter codec0 pass0 p_full)))))
     = files (pw (projr (stream_iter codec0 pass0 p_full)))"
proof -
  let ?f = "\<lparr>f_height = 480, f_width = 640, f_pixels = []\<rparr>"
  let ?p2 = "projr (stream_frame codec0 pass0 ?f p_full)"
  let ?p1 = "projr (stream_iter codec0 pass0 p_full)"
  have s: "streaming (state (pw p_full))" by (simp add: full_eval)
  have c: "camera_read pass0 = Some ?f" by (simp add: pass0_def)
  have n: "\<not> over_cap (pw p_full)" by (simp add: full_eval)
  have i: "\<not> isl (stream_frame codec0 pass0 ?f p_full)" by (simp add: full_eval)
  then have b: "stream_frame codec0 pass0 ?f p_full = Inr ?p2" by (cases "stream_frame codec0 pass0 ?f p_full") simp_all
  have o: "over_cap (pw ?p2)" by (simp add: full_eval)
  note t = size_check_invokes_stop
  from t [of p_full pass0 ?f codec0 ?p2] s c b o
  have it: "stream_iter codec0 pass0 p_full = Inr (?p2\<lparr>pw := fst (stop_recording (clock pass0) (pw ?p2))\<rparr>)"
    by simp
  then have a1: "pw ?p1 = fst (stop_recording 200 (pw ?p2))" by (simp add: pass0_def)
  from it have it': "stream_iter codec0 pass0 p_full = Inr ?p1" by simp
  from t [of p_full pass0 ?f codec0 ?p2 ?p1] s c it'
  have a2: "\<not> over_cap (pw ?p1)" by simp
  have l: "stream_loop codec0 [pass0, pass0] p_full
      = (None, snd (stream_loop codec0 [pass0, pass0] p_full))"
    by (simp add: full_eval check_recording_size_eq)
  from t [of p_full pass0 ?f codec0 ?p2 ?p1 "[pass0, pass0]"
      "snd (stream_loop codec0 [pass0, pass0] p_full)"] n l
  have a3: "\<not> over_cap (pw (snd (stream_loop codec0 [pass0, pass0] p_full)))" by simp
  have r: "\<not> recording (state (pw ?p1))"
    unfolding a1 using o by (simp add: stop_recording_clears over_cap_def split: option.splits)
  have l2: "stream_loop codec0 [pass0, pass0] ?p1
      = (fst (stream_loop codec0 [pass0, pass0] ?p1), snd (stream_loop codec0 [pass0, pass0] ?p1))"
    by simp
  from t [of ?p1 pass0 ?f codec0 ?p2 ?p1 "[pass0, pass0]" _
      "fst (stream_loop codec0 [pass0, pass0] ?p1)" "snd (stream_loop codec0 [pass0, pass0] ?p1)"] r l2
  have a4: "files (pw (snd (stream_loop codec0 [pass0, pass0] ?p1))) = files (pw ?p1)" by simp
  from s n i o a1 a2 a3 r a4 show ?thesis by blast
qed

text \<open>
  C7 as stated fails: the file can end more than one frame above the cap. The recording
  file is exactly at the cap; the writer holds the first frame of 3 bytes in its buffer;
  with the second frame it puts both into the file, the check finds the file over the cap
  and \<^verbatim>\<open>stop_recording\<close> runs, where \<^verbatim>\<open>release()\<close> appends the index. The file ends 10
  bytes above the cap.
\<close>

theorem cap_exceeded_by_more_than_a_frame:
  "\<not> over_cap (pw p_full) \<and>
   getsize (files (pw p_full)) ''/home/pi/recordings/full.avi'' = cap_bytes \<and>
   length (mjpg_encode codec0 \<lparr>f_height = 480, f_width = 640, f_pixels = []\<rparr>) = 3 \<and>
   fst (stream_loop codec0 [pass_hold, pass_flush] p_full) = None \<and>
   frames_recorded (state (pw (snd (stream_loop codec0 [pass_hold, pass_flush] p_full)))) = 2 \<and>
   \<not> recording (state (pw (snd (stream_loop codec0 [pass_hold, pass_flush] p_full)))) \<and>
   getsize (files (pw (snd (stream_loop codec0 [pass_hold, pass_flush] p_full))))
       ''/home/pi/recordings/full.avi'' = cap_bytes + 10 \<and>
   cap_bytes + 3
     < getsize (files (pw (snd (stream_loop codec0 [pass_hold, pass_flush] p_full))))
         ''/home/pi/recordings/full.avi''"
  by (simp add: full_eval check_recording_size_eq)

end
